theory Spec2Isabelle
  imports Main "HOL-Library.AList"
begin

section \<open>The signaling server (src/server/server.js)\<close>

text \<open>
  The server keeps three JavaScript \<^verbatim>\<open>Map\<close>s: \<^verbatim>\<open>activeCalls\<close>, \<^verbatim>\<open>userSessions\<close> and
  \<^verbatim>\<open>rooms\<close>. A \<^verbatim>\<open>Map\<close> iterates in insertion order, \<^verbatim>\<open>set\<close> on a present key keeps the
  key's place and \<^verbatim>\<open>set\<close> on a new key appends, so a \<^verbatim>\<open>Map\<close> is an association list:
  \<^verbatim>\<open>get\<close> is \<^const>\<open>map_of\<close>, \<^verbatim>\<open>set\<close> is \<^const>\<open>AList.update\<close>, \<^verbatim>\<open>delete\<close> is
  \<^const>\<open>AList.delete\<close>. Identifiers (user ids, socket ids, room names, session ids) are
  strings; a field that a message leaves out, and every other falsy value, is the empty
  string. Negotiation payloads (offer, answer, candidate) are opaque strings. Every
  \<^verbatim>\<open>new Date()\<close> is a clock reading in milliseconds handed to the handler.
\<close>

type_synonym payload = string

definition truthy :: "string \<Rightarrow> bool" where
  "truthy s \<longleftrightarrow> s \<noteq> []"

text \<open>
  The \<^verbatim>\<open>userData\<close> object of a message, with the keys the client of this repository
  sends (VideoCall.jsx, the \<^verbatim>\<open>connect\<close> handler): name, role and socketId.
\<close>

record user_data =
  ud_name :: "string option"
  ud_role :: "string option"
  ud_socketId :: "string option"

text \<open>
  A value of \<^verbatim>\<open>userSessions\<close>. \<^verbatim>\<open>register-user\<close> builds it as
  \<^verbatim>\<open>{ socketId: socket.id, userId, ...userData, connectedAt: new Date() }\<close>; the keys
  \<^verbatim>\<open>currentRoom\<close> and \<^verbatim>\<open>currentCall\<close> are added by later handlers.
\<close>

record session =
  socketId :: string
  userId :: string
  name :: "string option"
  role :: "string option"
  connectedAt :: int
  currentRoom :: "string option"
  currentCall :: "string option"

datatype call_status = Initiated | InProgress

text \<open>A value of \<^verbatim>\<open>activeCalls\<close>; \<^verbatim>\<open>startedAt\<close> is always set by \<^verbatim>\<open>initiate-call\<close>.\<close>

record call =
  caller :: string
  callee :: string
  participants :: "string list"
  callType :: string
  offer :: "payload option"
  startedAt :: int
  status :: call_status
  answer :: "payload option"
  answeredAt :: "int option"

text \<open>A value of a room's member map, keyed by socket id.\<close>

record member =
  m_userId :: string
  m_userData :: user_data
  m_joinedAt :: int

text \<open>An element of the \<^verbatim>\<open>participants\<close> array of \<^verbatim>\<open>user-joined\<close> and \<^verbatim>\<open>room-joined\<close>.\<close>

record participant =
  p_socketId :: string
  p_userId :: string
  p_userData :: user_data

text \<open>The object literal that \<^verbatim>\<open>saveCallDetails\<close> passes to \<^verbatim>\<open>new CallNote(...)\<close>.\<close>

record call_details =
  n_sessionId :: string
  n_participants :: "string list"
  n_type :: string
  n_startedAt :: int
  n_endedAt :: int
  n_duration :: int
  n_status :: string
  n_endedBy :: string
  n_reason :: string

text \<open>
  A document of the \<^verbatim>\<open>CallNote\<close> model, the only model of that name in the repository
  (\<^verbatim>\<open>callNoteSchema\<close>, the third document of src/server/routes/callRoutes.js):
  \<^verbatim>\<open>session\<close>, \<^verbatim>\<open>author\<close>, \<^verbatim>\<open>content\<close> and \<^verbatim>\<open>timestamp\<close> are required, \<^verbatim>\<open>createdAt\<close> defaults
  to \<^verbatim>\<open>Date.now\<close>. A path that was not set is \<open>None\<close>.
\<close>

record call_note =
  cn_session :: "string option"
  cn_author :: "string option"
  cn_content :: "string option"
  cn_timestamp :: "int option"
  cn_createdAt :: int

subsection \<open>Messages\<close>

record register_msg =
  rg_userId :: string
  rg_userData :: user_data

record join_msg =
  jn_room :: string
  jn_userId :: string
  jn_userData :: user_data

record offer_msg =
  of_to :: string
  of_offer :: payload
  of_sessionId :: string
  of_caller :: string
  of_callerInfo :: user_data
  of_type :: string

record answer_msg =
  an_to :: string
  an_answer :: payload
  an_sessionId :: string

record ice_msg =
  ic_to :: string
  ic_candidate :: payload
  ic_sessionId :: string

record initiate_msg =
  in_to :: string
  in_caller :: string
  in_type :: "string option"
  in_offer :: "payload option"
  in_sessionId :: string

record accept_msg =
  ac_to :: string
  ac_answer :: "payload option"
  ac_sessionId :: string
  ac_callerId :: string

record reject_msg =
  rj_to :: string
  rj_sessionId :: string
  rj_reason :: "string option"

record end_msg =
  en_to :: string
  en_sessionId :: string
  en_reason :: "string option"

text \<open>What the server emits, and to whom.\<close>

datatype emitted =
    UserRegistered string
  | Error string string
  | UserLeft string string
  | UserJoined string string user_data "participant list"
  | RoomJoined string "participant list"
  | Offer offer_msg
  | Answer answer_msg
  | IceCandidate string payload string
  | IncomingCall string string string "payload option" "user_data option"
  | CallInitiated string string
  | CallAccepted string "payload option" string
  | CallRejected string string
  | CallEnded string string string int

text \<open>
  \<open>ToSender s\<close> is \<^verbatim>\<open>socket.emit\<close> on socket \<open>s\<close>; \<open>ToSocket r\<close> is \<^verbatim>\<open>io.to(r).emit\<close>;
  \<open>Broadcast s r\<close> is \<^verbatim>\<open>socket.to(r).emit\<close> on socket \<open>s\<close>: every socket of room \<open>r\<close>
  but the sender.
\<close>

datatype target = ToSender string | ToSocket string | Broadcast string string

text \<open>
  \<open>socketRooms\<close> is socket.io's \<^verbatim>\<open>socket.rooms\<close> of each socket (a \<^verbatim>\<open>Set\<close>, in insertion
  order): a socket starts in the room named by its own id. \<open>sent\<close> is the log of emits,
  oldest first.
\<close>

record state =
  activeCalls :: "(string \<times> call) list"
  userSessions :: "(string \<times> session) list"
  rooms :: "(string \<times> (string \<times> member) list) list"
  socketRooms :: "(string \<times> string list) list"
  callNotes :: "call_note list"
  sent :: "(target \<times> emitted) list"

definition init :: state where
  "init = \<lparr>activeCalls = [], userSessions = [], rooms = [], socketRooms = [],
            callNotes = [], sent = []\<rparr>"

text \<open>The clock readings of \<^verbatim>\<open>endCall\<close> and \<^verbatim>\<open>saveCallDetails\<close>, in program order; the last
  one is the \<^verbatim>\<open>Date.now\<close> default of \<^verbatim>\<open>createdAt\<close>.\<close>

record end_clock =
  t_event :: int
  t_endedAt :: int
  t_duration :: int
  t_createdAt :: int

definition emit :: "target \<Rightarrow> emitted \<Rightarrow> state \<Rightarrow> state" where
  "emit t e st = st\<lparr>sent := sent st @ [(t, e)]\<rparr>"

text \<open>\<^verbatim>\<open>Set.prototype.add\<close>.\<close>

definition set_add :: "'a list \<Rightarrow> 'a \<Rightarrow> 'a list" where
  "set_add xs x = (if x \<in> set xs then xs else xs @ [x])"

definition socket_rooms :: "state \<Rightarrow> string \<Rightarrow> string list" where
  "socket_rooms st sock =
     (case map_of (socketRooms st) sock of None \<Rightarrow> [sock] | Some rs \<Rightarrow> rs)"

definition socket_join :: "string \<Rightarrow> string \<Rightarrow> state \<Rightarrow> state" where
  "socket_join sock room st =
     st\<lparr>socketRooms := AList.update sock (set_add (socket_rooms st sock) room) (socketRooms st)\<rparr>"

definition socket_leave :: "string \<Rightarrow> string \<Rightarrow> state \<Rightarrow> state" where
  "socket_leave sock room st =
     st\<lparr>socketRooms := AList.update sock (removeAll room (socket_rooms st sock)) (socketRooms st)\<rparr>"

text \<open>\<^verbatim>\<open>String.prototype.includes\<close>.\<close>

fun str_includes :: "string \<Rightarrow> string \<Rightarrow> bool" where
  "str_includes [] sub = (sub = [])"
| "str_includes (c # cs) sub = (take (length sub) (c # cs) = sub \<or> str_includes cs sub)"

subsection \<open>leaveRoom, endCall, saveCallDetails\<close>

definition leaveRoom :: "string \<Rightarrow> string \<Rightarrow> string \<Rightarrow> state \<Rightarrow> state" where
  "leaveRoom sock room uid st =
     (if \<not> truthy room then st
      else
        let st1 = socket_leave sock room st in
        case map_of (rooms st1) room of
          None \<Rightarrow> st1
        | Some roomData \<Rightarrow>
            let roomData' = (case map_of roomData sock of
                               None \<Rightarrow> roomData
                             | Some ud \<Rightarrow> AList.delete sock roomData);
                st2 = (case map_of roomData sock of
                         None \<Rightarrow> st1
                       | Some ud \<Rightarrow>
                           emit (Broadcast sock room)
                             (UserLeft sock (if truthy uid then uid else m_userId ud)) st1)
            in if roomData' = []
               then st2\<lparr>rooms := AList.delete room (rooms st2)\<rparr>
               else st2\<lparr>rooms := AList.update room roomData' (rooms st2)\<rparr>)"

text \<open>The object that \<^verbatim>\<open>saveCallDetails\<close> builds for the model.\<close>

definition callDetails ::
  "end_clock \<Rightarrow> string \<Rightarrow> call \<Rightarrow> string \<Rightarrow> string \<Rightarrow> call_details" where
  "callDetails clk sessionId c reason endedBy =
     \<lparr>n_sessionId = sessionId,
      n_participants = participants c,
      n_type = callType c,
      n_startedAt = startedAt c,
      n_endedAt = t_endedAt clk,
      n_duration = t_duration clk - startedAt c,
      n_status = (if str_includes reason ''rejected'' then ''rejected'' else ''completed''),
      n_endedBy = endedBy,
      n_reason = reason\<rparr>"

text \<open>
  \<^verbatim>\<open>new CallNote(obj)\<close>: Mongoose builds the document in strict mode, which keeps only the
  keys of \<^verbatim>\<open>obj\<close> that are paths of the schema. None of the nine keys of the object above
  is one, so every path but the defaulted \<^verbatim>\<open>createdAt\<close> stays unset.
\<close>

definition new_CallNote :: "int \<Rightarrow> call_details \<Rightarrow> call_note" where
  "new_CallNote now d =
     \<lparr>cn_session = None, cn_author = None, cn_content = None, cn_timestamp = None,
      cn_createdAt = now\<rparr>"

text \<open>The validation that \<^verbatim>\<open>save()\<close> runs: the required paths are set.\<close>

definition validates :: "call_note \<Rightarrow> bool" where
  "validates n \<longleftrightarrow>
     cn_session n \<noteq> None \<and> cn_author n \<noteq> None \<and> cn_content n \<noteq> None \<and> cn_timestamp n \<noteq> None"

text \<open>
  \<^verbatim>\<open>saveCallDetails\<close>: a document that validates is stored; for one that does not,
  \<^verbatim>\<open>save()\<close> rejects, the \<^verbatim>\<open>catch\<close> logs the error and the store is left as it was. (A
  \<^verbatim>\<open>reason\<close> that is not a string makes \<^verbatim>\<open>reason.includes\<close> throw inside the same \<^verbatim>\<open>try\<close>,
  with the same outcome.)
\<close>

definition saveCallDetails ::
  "end_clock \<Rightarrow> string \<Rightarrow> call \<Rightarrow> string \<Rightarrow> string \<Rightarrow> state \<Rightarrow> state" where
  "saveCallDetails clk sessionId c reason endedBy st =
     (let callNote = new_CallNote (t_createdAt clk) (callDetails clk sessionId c reason endedBy)
      in if validates callNote then st\<lparr>callNotes := callNotes st @ [callNote]\<rparr> else st)"

text \<open>The first \<^verbatim>\<open>forEach\<close> of \<^verbatim>\<open>endCall\<close>: the sockets of the participants, as a \<^verbatim>\<open>Set\<close>.\<close>

definition collectSocket :: "(string \<times> session) list \<Rightarrow> string list \<Rightarrow> string \<Rightarrow> string list" where
  "collectSocket us acc p =
     (case map_of us p of
        None \<Rightarrow> acc
      | Some s \<Rightarrow> if truthy (socketId s) then set_add acc (socketId s) else acc)"

definition socketsToNotify :: "(string \<times> session) list \<Rightarrow> string list \<Rightarrow> string list" where
  "socketsToNotify us ps = foldl (collectSocket us) [] ps"

text \<open>One round of the \<^verbatim>\<open>forEach\<close> that resets \<^verbatim>\<open>currentCall\<close>.\<close>

definition clearCurrentCall ::
  "string \<Rightarrow> (string \<times> session) list \<Rightarrow> string \<Rightarrow> (string \<times> session) list" where
  "clearCurrentCall sessionId us p =
     (case map_of us p of
        None \<Rightarrow> us
      | Some ud \<Rightarrow>
          if currentCall ud = Some sessionId
          then AList.update p (ud\<lparr>currentCall := None\<rparr>) us
          else us)"

definition endCall :: "end_clock \<Rightarrow> string \<Rightarrow> string \<Rightarrow> string \<Rightarrow> state \<Rightarrow> state" where
  "endCall clk sessionId uid reason st =
     (if \<not> truthy sessionId then st
      else case map_of (activeCalls st) sessionId of
        None \<Rightarrow> st
      | Some c \<Rightarrow>
          let ps = participants c;
              socks = socketsToNotify (userSessions st) ps;
              ev = CallEnded sessionId reason uid (t_event clk - startedAt c);
              st1 = st\<lparr>sent := sent st @ map (\<lambda>s. (ToSocket s, ev)) socks\<rparr>;
              st2 = st1\<lparr>activeCalls := AList.delete sessionId (activeCalls st1)\<rparr>;
              st3 = st2\<lparr>userSessions := foldl (clearCurrentCall sessionId) (userSessions st2) ps\<rparr>
          in if ps \<noteq> [] then saveCallDetails clk sessionId c reason uid st3 else st3)"

subsection \<open>The handlers of \<^verbatim>\<open>io.on('connection')\<close>\<close>

definition on_register_user :: "string \<Rightarrow> int \<Rightarrow> register_msg \<Rightarrow> state \<Rightarrow> state" where
  "on_register_user sock now m st =
     (if \<not> truthy (rg_userId m)
      then emit (ToSender sock) (Error ''Failed to register user'' ''User ID is required'') st
      else
        let ud = rg_userData m;
            s = \<lparr>socketId = (case ud_socketId ud of None \<Rightarrow> sock | Some x \<Rightarrow> x),
                 userId = rg_userId m,
                 name = ud_name ud,
                 role = ud_role ud,
                 connectedAt = now,
                 currentRoom = None,
                 currentCall = None\<rparr>
        in emit (ToSender sock) (UserRegistered (rg_userId m))
             (st\<lparr>userSessions := AList.update (rg_userId m) s (userSessions st)\<rparr>))"

definition room_participants :: "string \<Rightarrow> (string \<times> member) list \<Rightarrow> participant list" where
  "room_participants sock roomData =
     map (\<lambda>(i, d). \<lparr>p_socketId = i, p_userId = m_userId d, p_userData = m_userData d\<rparr>)
       (filter (\<lambda>(i, d). i \<noteq> sock) roomData)"

text \<open>The first block of \<^verbatim>\<open>join-room\<close>: \<^verbatim>\<open>// Leave current room if any\<close>.\<close>

definition leaveCurrentRoom :: "string \<Rightarrow> string \<Rightarrow> state \<Rightarrow> state" where
  "leaveCurrentRoom sock uid st =
     (if length (socket_rooms st sock) > 1
      then (case find (\<lambda>r. r \<noteq> sock) (socket_rooms st sock) of
              None \<Rightarrow> st
            | Some cur \<Rightarrow> if truthy cur then leaveRoom sock cur uid st else st)
      else st)"

definition on_join_room :: "string \<Rightarrow> int \<Rightarrow> join_msg \<Rightarrow> state \<Rightarrow> state" where
  "on_join_room sock now m st =
     (if \<not> truthy (jn_room m) \<or> \<not> truthy (jn_userId m)
      then emit (ToSender sock) (Error ''Failed to join room'' ''Room and user ID are required'') st
      else
        let room = jn_room m;
            uid = jn_userId m;
            st1 = leaveCurrentRoom sock uid st;
            st2 = socket_join sock room st1;
            roomData0 = (case map_of (rooms st2) room of None \<Rightarrow> [] | Some rd \<Rightarrow> rd);
            roomData = AList.update sock
                         \<lparr>m_userId = uid, m_userData = jn_userData m, m_joinedAt = now\<rparr> roomData0;
            st3 = st2\<lparr>rooms := AList.update room roomData (rooms st2)\<rparr>;
            st4 = (case map_of (userSessions st3) uid of
                     None \<Rightarrow> st3
                   | Some userSession \<Rightarrow>
                       st3\<lparr>userSessions :=
                         AList.update uid (userSession\<lparr>currentRoom := Some room, socketId := sock\<rparr>)
                           (userSessions st3)\<rparr>);
            st5 = emit (Broadcast sock room)
                    (UserJoined uid sock (jn_userData m) (room_participants sock roomData)) st4;
            ps = room_participants sock roomData
        in if ps \<noteq> [] then emit (ToSender sock) (RoomJoined room ps) st5 else st5)"

definition not_found :: "string \<Rightarrow> string" where
  "not_found to = ''Target user '' @ to @ '' not found''"

definition on_offer :: "string \<Rightarrow> offer_msg \<Rightarrow> state \<Rightarrow> state" where
  "on_offer sock m st =
     (case map_of (userSessions st) (of_to m) of
        None \<Rightarrow> emit (ToSender sock) (Error ''Failed to send offer'' (not_found (of_to m))) st
      | Some targetUser \<Rightarrow> emit (ToSocket (socketId targetUser)) (Offer m) st)"

definition on_answer :: "string \<Rightarrow> answer_msg \<Rightarrow> state \<Rightarrow> state" where
  "on_answer sock m st =
     (case map_of (userSessions st) (an_to m) of
        None \<Rightarrow> emit (ToSender sock) (Error ''Failed to send answer'' (not_found (an_to m))) st
      | Some targetUser \<Rightarrow> emit (ToSocket (socketId targetUser)) (Answer m) st)"

definition on_ice_candidate :: "string \<Rightarrow> ice_msg \<Rightarrow> state \<Rightarrow> state" where
  "on_ice_candidate sock m st =
     (case map_of (userSessions st) (ic_to m) of
        None \<Rightarrow> emit (ToSender sock) (Error ''Failed to send ICE candidate'' (not_found (ic_to m))) st
      | Some targetUser \<Rightarrow>
          emit (ToSocket (socketId targetUser))
            (IceCandidate sock (ic_candidate m) (ic_sessionId m)) st)"

text \<open>
  \<open>uuid\<close> is what \<^verbatim>\<open>uuidv4()\<close> returns when the message has no session id. A session built
  by \<^verbatim>\<open>register-user\<close> has no \<^verbatim>\<open>userData\<close> key, so \<^verbatim>\<open>callerInfo.userData\<close> is undefined
  for a registered caller and \<^verbatim>\<open>{}\<close> for an unregistered one.
\<close>

definition on_initiate_call :: "string \<Rightarrow> int \<Rightarrow> string \<Rightarrow> initiate_msg \<Rightarrow> state \<Rightarrow> state" where
  "on_initiate_call sock now uuid m st =
     (if \<not> truthy (in_to m) \<or> \<not> truthy (in_caller m)
      then emit (ToSender sock)
             (Error ''Failed to initiate call'' ''Caller and callee IDs are required'') st
      else
        let to = in_to m;
            clr = in_caller m;
            ty = (case in_type m of None \<Rightarrow> ''video'' | Some t \<Rightarrow> t);
            callerInfo = (case map_of (userSessions st) clr of
                            None \<Rightarrow> Some \<lparr>ud_name = None, ud_role = None, ud_socketId = None\<rparr>
                          | Some s \<Rightarrow> None);
            callSessionId = (if truthy (in_sessionId m) then in_sessionId m else uuid);
            st1 = st\<lparr>activeCalls := AList.update callSessionId
                     \<lparr>caller = clr, callee = to, participants = [clr], callType = ty,
                      offer = in_offer m, startedAt = now, status = Initiated,
                      answer = None, answeredAt = None\<rparr> (activeCalls st)\<rparr>;
            st2 = (case map_of (userSessions st1) clr of
                     None \<Rightarrow> st1
                   | Some ud \<Rightarrow>
                       st1\<lparr>userSessions :=
                         AList.update clr (ud\<lparr>currentCall := Some callSessionId\<rparr>) (userSessions st1)\<rparr>)
        in case map_of (userSessions st2) to of
             None \<Rightarrow> emit (ToSender sock)
                       (Error ''Failed to initiate call'' ''Callee is not connected'') st2
           | Some calleeSession \<Rightarrow>
               emit (ToSender sock) (CallInitiated callSessionId to)
                 (emit (ToSocket (socketId calleeSession))
                    (IncomingCall callSessionId clr ty (in_offer m) callerInfo) st2))"

definition on_accept_call :: "string \<Rightarrow> int \<Rightarrow> accept_msg \<Rightarrow> state \<Rightarrow> state" where
  "on_accept_call sock now m st =
     (if \<not> truthy (ac_to m) \<or> \<not> truthy (ac_sessionId m)
      then emit (ToSender sock)
             (Error ''Failed to accept call'' ''Recipient and session ID are required'') st
      else case map_of (activeCalls st) (ac_sessionId m) of
        None \<Rightarrow> emit (ToSender sock) (Error ''Failed to accept call'' ''Call session not found'') st
      | Some c \<Rightarrow>
          let sid = ac_sessionId m;
              cid = ac_callerId m;
              c' = c\<lparr>participants := participants c @ [cid], status := InProgress,
                     answer := ac_answer m, answeredAt := Some now\<rparr>;
              st1 = st\<lparr>activeCalls := AList.update sid c' (activeCalls st)\<rparr>;
              st2 = (case map_of (userSessions st1) cid of
                       None \<Rightarrow> st1
                     | Some ud \<Rightarrow>
                         st1\<lparr>userSessions :=
                           AList.update cid (ud\<lparr>currentCall := Some sid\<rparr>) (userSessions st1)\<rparr>)
          in (case map_of (userSessions st2) (ac_to m) of
                None \<Rightarrow> emit (ToSender sock)
                          (Error ''Failed to accept call'' ''Caller is no longer connected'') st2
              | Some callerSession \<Rightarrow>
                  emit (ToSocket (socketId callerSession)) (CallAccepted sid (ac_answer m) cid) st2))"

definition on_reject_call :: "string \<Rightarrow> reject_msg \<Rightarrow> state \<Rightarrow> state" where
  "on_reject_call sock m st =
     (if \<not> truthy (rj_to m) \<or> \<not> truthy (rj_sessionId m)
      then emit (ToSender sock)
             (Error ''Failed to reject call'' ''Recipient and session ID are required'') st
      else case map_of (activeCalls st) (rj_sessionId m) of
        None \<Rightarrow> st
      | Some c \<Rightarrow>
          let sid = rj_sessionId m;
              reason = (case rj_reason m of None \<Rightarrow> ''Call rejected'' | Some r \<Rightarrow> r);
              st1 = (case map_of (userSessions st) (rj_to m) of
                       None \<Rightarrow> st
                     | Some callerSession \<Rightarrow>
                         emit (ToSocket (socketId callerSession)) (CallRejected sid reason) st);
              st2 = st1\<lparr>activeCalls := AList.delete sid (activeCalls st1)\<rparr>
          in st2\<lparr>userSessions := foldl (clearCurrentCall sid) (userSessions st2) [caller c, callee c]\<rparr>)"

text \<open>The user the \<^verbatim>\<open>end-call\<close> and \<^verbatim>\<open>disconnect\<close> handlers find for a socket: the first
  entry of \<^verbatim>\<open>userSessions\<close> whose \<^verbatim>\<open>socketId\<close> is the socket's id.\<close>

definition session_of_socket :: "string \<Rightarrow> state \<Rightarrow> (string \<times> session) option" where
  "session_of_socket sock st = find (\<lambda>(i, s). socketId s = sock) (userSessions st)"

definition on_end_call :: "string \<Rightarrow> end_clock \<Rightarrow> end_msg \<Rightarrow> state \<Rightarrow> state" where
  "on_end_call sock clk m st =
     (if \<not> truthy (en_sessionId m)
      then emit (ToSender sock) (Error ''Failed to end call'' ''Session ID is required'') st
      else
        let reason = (case en_reason m of None \<Rightarrow> ''Call ended'' | Some r \<Rightarrow> r);
            uid = (case session_of_socket sock st of None \<Rightarrow> [] | Some (i, s) \<Rightarrow> i)
        in endCall clk (en_sessionId m) (if truthy uid then uid else en_to m) reason st)"

definition on_disconnect :: "string \<Rightarrow> end_clock \<Rightarrow> state \<Rightarrow> state" where
  "on_disconnect sock clk st =
     (let st' =
        (case session_of_socket sock st of
           None \<Rightarrow> st
         | Some (uid, d) \<Rightarrow>
             let st1 = (case currentCall d of
                          None \<Rightarrow> st
                        | Some c \<Rightarrow>
                            if truthy c then endCall clk c uid ''Participant disconnected'' st
                            else st);
                 st2 = (case currentRoom d of
                          None \<Rightarrow> st1
                        | Some r \<Rightarrow> if truthy r then leaveRoom sock r uid st1 else st1)
             in st2\<lparr>userSessions := AList.delete uid (userSessions st2)\<rparr>)
      in st'\<lparr>socketRooms := AList.delete sock (socketRooms st')\<rparr>)"

subsection \<open>Sequences of handled events\<close>

datatype event =
    RegisterUser string int register_msg
  | JoinRoom string int join_msg
  | OfferMsg string offer_msg
  | AnswerMsg string answer_msg
  | IceMsg string ice_msg
  | InitiateCall string int string initiate_msg
  | AcceptCall string int accept_msg
  | RejectCall string reject_msg
  | EndCall string end_clock end_msg
  | Disconnect string end_clock

fun handle :: "event \<Rightarrow> state \<Rightarrow> state" where
  "handle (RegisterUser sock now m) st = on_register_user sock now m st"
| "handle (JoinRoom sock now m) st = on_join_room sock now m st"
| "handle (OfferMsg sock m) st = on_offer sock m st"
| "handle (AnswerMsg sock m) st = on_answer sock m st"
| "handle (IceMsg sock m) st = on_ice_candidate sock m st"
| "handle (InitiateCall sock now uuid m) st = on_initiate_call sock now uuid m st"
| "handle (AcceptCall sock now m) st = on_accept_call sock now m st"
| "handle (RejectCall sock m) st = on_reject_call sock m st"
| "handle (EndCall sock clk m) st = on_end_call sock clk m st"
| "handle (Disconnect sock clk) st = on_disconnect sock clk st"

fun run :: "event list \<Rightarrow> state \<Rightarrow> state" where
  "run [] st = st"
| "run (e # es) st = run es (handle e st)"

section \<open>The client's offer handler (VideoCall.jsx, \<^verbatim>\<open>socket.on('offer')\<close>)\<close>

text \<open>
  The handler is an \<^verbatim>\<open>async\<close> function: it runs up to \<^verbatim>\<open>await getUserMedia(...)\<close>, gives
  the event loop back, and resumes when the browser grants or refuses the media. The two
  halves are two steps of the client; other events are handled in between.
  \<open>peers\<close> holds every \<^verbatim>\<open>Peer\<close> object constructed so far, \<open>peerRef\<close> is
  \<^verbatim>\<open>peerRef.current\<close> as an index into it, \<open>awaiting\<close> the offers whose handler is
  suspended at the \<^verbatim>\<open>await\<close>. The debug log and the bookkeeping of the local media stream
  inside \<^verbatim>\<open>getUserMedia\<close> are left out.
\<close>

datatype call_state = IDLE | CALLING | CONNECTING | CONNECTED | REJECTED | ENDED | ERROR

record peer =
  initiator :: bool
  stream :: string
  remoteUser :: string
  signalled :: "payload list"
  destroyed :: bool

record caller_info =
  ci_id :: string
  ci_name :: string
  ci_type :: string

record client =
  callStatus :: call_state
  callerInfo :: "caller_info option"
  peerRef :: "nat option"
  peers :: "peer list"
  awaiting :: "offer_msg list"

definition client_init :: client where
  "client_init = \<lparr>callStatus = IDLE, callerInfo = None, peerRef = None, peers = [],
                   awaiting = []\<rparr>"

text \<open>The handler up to the \<^verbatim>\<open>await\<close>.\<close>

definition offer_received :: "offer_msg \<Rightarrow> client \<Rightarrow> client" where
  "offer_received d cl =
     (if peerRef cl \<noteq> None then cl
      else cl\<lparr>callerInfo := Some \<lparr>ci_id = of_caller d,
                                   ci_name = (case ud_name (of_callerInfo d) of
                                                None \<Rightarrow> ''Unknown User''
                                              | Some n \<Rightarrow> if truthy n then n else ''Unknown User''),
                                   ci_type = of_type d\<rparr>,
              callStatus := CONNECTING,
              awaiting := awaiting cl @ [d]\<rparr>)"

text \<open>The handler from the \<^verbatim>\<open>await\<close> on: \<open>Some stream\<close> is the media granted, \<open>None\<close> is
  \<^verbatim>\<open>getUserMedia\<close> throwing. A resumption of a handler that is not suspended is no step.\<close>

definition offer_resumed :: "offer_msg \<Rightarrow> string option \<Rightarrow> client \<Rightarrow> client" where
  "offer_resumed d media cl =
     (if d \<notin> set (awaiting cl) then cl
      else
        let cl1 = cl\<lparr>awaiting := remove1 d (awaiting cl)\<rparr> in
        case media of
          None \<Rightarrow> cl1\<lparr>callStatus := ERROR\<rparr>
        | Some strm \<Rightarrow>
            cl1\<lparr>peers := peers cl1 @
                     [\<lparr>initiator = False, stream = strm, remoteUser = of_caller d,
                       signalled = [of_offer d], destroyed = False\<rparr>],
                 peerRef := Some (length (peers cl1))\<rparr>)"

datatype client_event = OfferArrives offer_msg | MediaSettled offer_msg "string option"

fun client_handle :: "client_event \<Rightarrow> client \<Rightarrow> client" where
  "client_handle (OfferArrives d) cl = offer_received d cl"
| "client_handle (MediaSettled d media) cl = offer_resumed d media cl"

fun client_run :: "client_event list \<Rightarrow> client \<Rightarrow> client" where
  "client_run [] cl = cl"
| "client_run (e # es) cl = client_run es (client_handle e cl)"

definition live_peers :: "client \<Rightarrow> peer list" where
  "live_peers cl = filter (\<lambda>p. \<not> destroyed p) (peers cl)"

section \<open>Predicates of the properties\<close>

text \<open>
  An identity is registered when it is a key of \<^verbatim>\<open>userSessions\<close>. A call references its
  caller, its callee and its participants. \<open>refs_registered\<close>: every identity referenced
  by an entry of \<^verbatim>\<open>activeCalls\<close> is registered.
\<close>

definition registered :: "state \<Rightarrow> string \<Rightarrow> bool" where
  "registered st i \<longleftrightarrow> map_of (userSessions st) i \<noteq> None"

definition call_ids :: "call \<Rightarrow> string list" where
  "call_ids c = caller c # callee c # participants c"

definition refs_registered :: "state \<Rightarrow> bool" where
  "refs_registered st \<longleftrightarrow>
     list_all (\<lambda>(sid, c). list_all (registered st) (call_ids c)) (activeCalls st)"

text \<open>
  The events that keep \<open>refs_registered\<close>: an \<^verbatim>\<open>initiate-call\<close> whose caller and callee
  are registered, an \<^verbatim>\<open>accept-call\<close> whose \<^verbatim>\<open>callerId\<close> is registered, a \<^verbatim>\<open>disconnect\<close>
  where the session removed is referenced by no call but its \<^verbatim>\<open>currentCall\<close>, and every
  other event.
\<close>

fun admissible :: "event \<Rightarrow> state \<Rightarrow> bool" where
  "admissible (InitiateCall sock now uuid m) st =
     (registered st (in_caller m) \<and> registered st (in_to m))"
| "admissible (AcceptCall sock now m) st = registered st (ac_callerId m)"
| "admissible (Disconnect sock clk) st =
     (case session_of_socket sock st of
        None \<Rightarrow> True
      | Some (u, d) \<Rightarrow>
          list_all (\<lambda>(sid, c). u \<notin> set (call_ids c) \<or> (currentCall d = Some sid \<and> truthy sid))
            (activeCalls st))"
| "admissible _ st = True"

text \<open>
  The one event that writes a new entry for session id \<open>sid\<close> into \<^verbatim>\<open>activeCalls\<close>: an
  \<^verbatim>\<open>initiate-call\<close> that passes its check and whose session id (the message's, or the fresh
  uuid when the message has none) is \<open>sid\<close>.
\<close>

fun creates :: "event \<Rightarrow> string \<Rightarrow> bool" where
  "creates (InitiateCall sock now uuid m) sid =
     (truthy (in_to m) \<and> truthy (in_caller m) \<and>
      (if truthy (in_sessionId m) then in_sessionId m else uuid) = sid)"
| "creates _ sid = False"

fun is_call_ended :: "emitted \<Rightarrow> bool" where
  "is_call_ended (CallEnded sid reason endedBy duration) = True"
| "is_call_ended _ = False"

text \<open>The \<^verbatim>\<open>call-ended\<close> events that were sent to socket \<open>k\<close> between state \<open>st\<close> and the
  later state \<open>st'\<close>.\<close>

definition call_ended_for :: "state \<Rightarrow> state \<Rightarrow> string \<Rightarrow> emitted list" where
  "call_ended_for st st' k =
     map snd (filter (\<lambda>(t, e). t = ToSocket k \<and> is_call_ended e)
                (drop (length (sent st)) (sent st')))"

text \<open>
  The call that an event ends: the session id, the \<^verbatim>\<open>endedBy\<close> identity, the reason and
  the clock that \<^verbatim>\<open>end-call\<close>, or the \<^verbatim>\<open>disconnect\<close> of a socket whose session holds a
  \<^verbatim>\<open>currentCall\<close>, hands to \<^verbatim>\<open>endCall\<close>.
\<close>

fun ends :: "event \<Rightarrow> state \<Rightarrow> (string \<times> string \<times> string \<times> end_clock) option" where
  "ends (EndCall sock clk m) st =
     (if truthy (en_sessionId m)
      then Some (en_sessionId m,
                 (case session_of_socket sock st of
                    None \<Rightarrow> en_to m
                  | Some (i, s) \<Rightarrow> if truthy i then i else en_to m),
                 (case en_reason m of None \<Rightarrow> ''Call ended'' | Some r \<Rightarrow> r),
                 clk)
      else None)"
| "ends (Disconnect sock clk) st =
     (case session_of_socket sock st of
        None \<Rightarrow> None
      | Some (u, d) \<Rightarrow>
          (case currentCall d of
             None \<Rightarrow> None
           | Some c \<Rightarrow> if truthy c then Some (c, u, ''Participant disconnected'', clk) else None))"
| "ends _ st = None"

text \<open>
  The member map of a room (empty when the room does not exist), the number of entries a
  socket has in it, and the well-formedness of the room directory as a \<^verbatim>\<open>Map\<close> of
  \<^verbatim>\<open>Map\<close>s: no member map holds a socket id twice.
\<close>

definition room_members :: "state \<Rightarrow> string \<Rightarrow> (string \<times> member) list" where
  "room_members st room = (case map_of (rooms st) room of None \<Rightarrow> [] | Some rd \<Rightarrow> rd)"


definition rooms_wf :: "state \<Rightarrow> bool" where
  "rooms_wf st \<longleftrightarrow> list_all (\<lambda>(r, rd). distinct (map fst rd)) (rooms st)"

text \<open>The \<^verbatim>\<open>Peer\<close> that the client's offer handler builds for offer \<open>d\<close> on media \<open>strm\<close>.\<close>

definition answerer :: "offer_msg \<Rightarrow> string \<Rightarrow> peer" where
  "answerer d strm = \<lparr>initiator = False, stream = strm, remoteUser = of_caller d,
                       signalled = [of_offer d], destroyed = False\<rparr>"

section \<open>Example states\<close>

text \<open>Alice is registered on socket \<open>sa\<close>, Bob on socket \<open>sb\<close>; Alice calls Bob in session
  \<open>s1\<close> at time 10.\<close>

definition ud_none :: user_data where
  "ud_none = \<lparr>ud_name = None, ud_role = None, ud_socketId = None\<rparr>"

definition ex_clock :: end_clock where
  "ex_clock = \<lparr>t_event = 100, t_endedAt = 101, t_duration = 102, t_createdAt = 103\<rparr>"

definition ex_registered :: state where
  "ex_registered = run
     [RegisterUser ''sa'' 0 \<lparr>rg_userId = ''alice'', rg_userData = ud_none\<rparr>,
      RegisterUser ''sb'' 0 \<lparr>rg_userId = ''bob'', rg_userData = ud_none\<rparr>] init"

definition ex_initiate :: initiate_msg where
  "ex_initiate = \<lparr>in_to = ''bob'', in_caller = ''alice'', in_type = None, in_offer = None,
                   in_sessionId = ''s1''\<rparr>"

definition ex_calling :: state where
  "ex_calling = on_initiate_call ''sa'' 10 ''uuid'' ex_initiate ex_registered"

definition ex_call :: call where
  "ex_call = \<lparr>caller = ''alice'', callee = ''bob'', participants = [''alice''],
               callType = ''video'', offer = None, startedAt = 10, status = Initiated,
               answer = None, answeredAt = None\<rparr>"

definition ex_end :: end_msg where
  "ex_end = \<lparr>en_to = ''bob'', en_sessionId = ''s1'', en_reason = None\<rparr>"


definition ex_accept :: accept_msg where
  "ex_accept = \<lparr>ac_to = ''alice'', ac_answer = None, ac_sessionId = ''s1'', ac_callerId = ''bob''\<rparr>"

definition ex_reject :: reject_msg where
  "ex_reject = \<lparr>rj_to = ''alice'', rj_sessionId = ''s1'', rj_reason = None\<rparr>"

definition ex_replay :: "event list" where
  "ex_replay =
     [AcceptCall ''sb'' 20 ex_accept,
      RejectCall ''sb'' ex_reject,
      EndCall ''sb'' ex_clock ex_end,
      OfferMsg ''sa'' \<lparr>of_to = ''bob'', of_offer = ''sdp'', of_sessionId = ''s1'',
                       of_caller = ''alice'', of_callerInfo = ud_none, of_type = ''video''\<rparr>,
      AnswerMsg ''sb'' \<lparr>an_to = ''alice'', an_answer = ''sdp'', an_sessionId = ''s1''\<rparr>,
      IceMsg ''sa'' \<lparr>ic_to = ''bob'', ic_candidate = ''cand'', ic_sessionId = ''s1''\<rparr>]"

text \<open>Bob has accepted the call at time 20.\<close>

definition ex_in_progress :: state where
  "ex_in_progress = on_accept_call ''sb'' 20 ex_accept ex_calling"

text \<open>A \<^verbatim>\<open>register-user\<close> of Bob whose \<^verbatim>\<open>userData\<close> carries the id of his earlier socket, and
  relay messages of the call.\<close>

definition ex_reregister :: register_msg where
  "ex_reregister = \<lparr>rg_userId = ''bob'',
                     rg_userData = \<lparr>ud_name = Some ''Bob'', ud_role = Some ''user'',
                                    ud_socketId = Some ''sb''\<rparr>\<rparr>"

definition ex_ice :: ice_msg where
  "ex_ice = \<lparr>ic_to = ''bob'', ic_candidate = ''cand'', ic_sessionId = ''s1''\<rparr>"

definition ex_answer :: answer_msg where
  "ex_answer = \<lparr>an_to = ''alice'', an_answer = ''sdp'', an_sessionId = ''s1''\<rparr>"







text \<open>An offer from Alice, as the server forwards it to Bob's client.\<close>

definition ex_offer :: offer_msg where
  "ex_offer = \<lparr>of_to = ''bob'', of_offer = ''sdp'', of_sessionId = ''s1'', of_caller = ''alice'',
                of_callerInfo = ud_none, of_type = ''video''\<rparr>"

section \<open>Properties\<close>

subsection \<open>What each handler changes\<close>

lemma saveCallDetails_rejected: "saveCallDetails clk sid c reason uid st = st"
  by (simp add: saveCallDetails_def new_CallNote_def validates_def)

lemma registered_keys: "registered st i \<longleftrightarrow> i \<in> fst ` set (userSessions st)"
  by (simp add: registered_def map_of_eq_None_iff)

lemma refs_registered_iff:
  "refs_registered st \<longleftrightarrow>
     (\<forall>(sid, c) \<in> set (activeCalls st). set (call_ids c) \<subseteq> fst ` set (userSessions st))"
  by (auto simp: refs_registered_def list_all_iff registered_keys)

lemma refs_registered_mono:
  assumes "refs_registered st"
    and "set (activeCalls st') \<subseteq> set (activeCalls st)"
    and "fst ` set (userSessions st) \<subseteq> fst ` set (userSessions st')"
  shows "refs_registered st'"
  using assms unfolding refs_registered_iff by fast

lemma keys_update_present:
  "map_of us p = Some v \<Longrightarrow> fst ` set (AList.update p w us) = fst ` set us"
  by (auto simp: dom_update dest: map_of_SomeD intro: rev_image_eqI)

lemma keys_clearCurrentCall: "fst ` set (clearCurrentCall sid us p) = fst ` set us"
  by (simp add: clearCurrentCall_def keys_update_present split: option.splits)

lemma keys_foldl_clearCurrentCall: "fst ` set (foldl (clearCurrentCall sid) us ps) = fst ` set us"
  by (induction ps arbitrary: us) (simp_all add: keys_clearCurrentCall)

lemma set_delete_subset: "set (AList.delete k al) \<subseteq> set al"
  by (auto simp: AList.delete_eq)

lemma activeCalls_emit [simp]: "activeCalls (emit t e st) = activeCalls st"
  and userSessions_emit [simp]: "userSessions (emit t e st) = userSessions st"
  and rooms_emit [simp]: "rooms (emit t e st) = rooms st"
  and callNotes_emit [simp]: "callNotes (emit t e st) = callNotes st"
  and socketRooms_emit [simp]: "socketRooms (emit t e st) = socketRooms st"
  and sent_emit [simp]: "sent (emit t e st) = sent st @ [(t, e)]"
  by (simp_all add: emit_def)

lemma leaveRoom_frame:
  "activeCalls (leaveRoom sock room uid st) = activeCalls st"
  "userSessions (leaveRoom sock room uid st) = userSessions st"
  "callNotes (leaveRoom sock room uid st) = callNotes st"
  by (simp_all add: leaveRoom_def socket_leave_def Let_def split: option.splits)

lemma endCall_activeCalls:
  "activeCalls (endCall clk sid uid reason st) =
     (if truthy sid \<and> map_of (activeCalls st) sid \<noteq> None
      then AList.delete sid (activeCalls st) else activeCalls st)"
  by (simp add: endCall_def saveCallDetails_rejected Let_def split: option.splits)

lemma endCall_keys:
  "fst ` set (userSessions (endCall clk sid uid reason st)) = fst ` set (userSessions st)"
  by (simp add: endCall_def saveCallDetails_rejected Let_def keys_foldl_clearCurrentCall
      split: option.splits)

lemma endCall_activeCalls_subset:
  "set (activeCalls (endCall clk sid uid reason st)) \<subseteq> set (activeCalls st)"
  by (simp add: endCall_activeCalls set_delete_subset)

lemma on_register_user_frame:
  "activeCalls (on_register_user sock now m st) = activeCalls st"
  "fst ` set (userSessions st) \<subseteq> fst ` set (userSessions (on_register_user sock now m st))"
  by (auto simp: on_register_user_def Let_def dom_update)

lemma on_join_room_frame:
  "activeCalls (on_join_room sock now m st) = activeCalls st"
  "fst ` set (userSessions (on_join_room sock now m st)) = fst ` set (userSessions st)"
  by (simp_all add: on_join_room_def leaveCurrentRoom_def Let_def leaveRoom_frame socket_join_def
      keys_update_present split: option.splits)

lemma relay_frame:
  "activeCalls (on_offer sock mo st) = activeCalls st"
  "userSessions (on_offer sock mo st) = userSessions st"
  "activeCalls (on_answer sock ma st) = activeCalls st"
  "userSessions (on_answer sock ma st) = userSessions st"
  "activeCalls (on_ice_candidate sock mi st) = activeCalls st"
  "userSessions (on_ice_candidate sock mi st) = userSessions st"
  by (simp_all add: on_offer_def on_answer_def on_ice_candidate_def split: option.splits)

lemma on_reject_call_frame:
  "set (activeCalls (on_reject_call sock m st)) \<subseteq> set (activeCalls st)"
  "fst ` set (userSessions (on_reject_call sock m st)) = fst ` set (userSessions st)"
  by (simp_all add: on_reject_call_def Let_def set_delete_subset keys_clearCurrentCall
      split: option.splits)

lemma on_end_call_frame:
  "set (activeCalls (on_end_call sock clk m st)) \<subseteq> set (activeCalls st)"
  "fst ` set (userSessions (on_end_call sock clk m st)) = fst ` set (userSessions st)"
  by (simp_all add: on_end_call_def Let_def endCall_activeCalls_subset endCall_keys)


lemma set_update_subset: "set (AList.update k v al) \<subseteq> insert (k, v) (set al)"
  by (induction al) auto


lemma refs_registered_emit [simp]: "refs_registered (emit t e st) = refs_registered st"
  by (simp add: refs_registered_iff)

lemma on_initiate_call_keys:
  "fst ` set (userSessions (on_initiate_call sock now uuid m st)) = fst ` set (userSessions st)"
  by (simp add: on_initiate_call_def Let_def keys_update_present split: option.splits)

lemma on_initiate_call_activeCalls:
  "activeCalls (on_initiate_call sock now uuid m st) =
     (if \<not> truthy (in_to m) \<or> \<not> truthy (in_caller m) then activeCalls st
      else AList.update (if truthy (in_sessionId m) then in_sessionId m else uuid)
             \<lparr>caller = in_caller m, callee = in_to m, participants = [in_caller m],
              callType = (case in_type m of None \<Rightarrow> ''video'' | Some t \<Rightarrow> t),
              offer = in_offer m, startedAt = now, status = Initiated,
              answer = None, answeredAt = None\<rparr> (activeCalls st))"
  by (simp add: on_initiate_call_def Let_def split: option.splits)

lemma on_accept_call_keys:
  "fst ` set (userSessions (on_accept_call sock now m st)) = fst ` set (userSessions st)"
  by (simp add: on_accept_call_def Let_def keys_update_present split: option.splits)

lemma on_accept_call_activeCalls:
  "activeCalls (on_accept_call sock now m st) =
     (if \<not> truthy (ac_to m) \<or> \<not> truthy (ac_sessionId m) then activeCalls st
      else case map_of (activeCalls st) (ac_sessionId m) of
        None \<Rightarrow> activeCalls st
      | Some c \<Rightarrow>
          AList.update (ac_sessionId m)
            (c\<lparr>participants := participants c @ [ac_callerId m], status := InProgress,
               answer := ac_answer m, answeredAt := Some now\<rparr>) (activeCalls st))"
  by (simp add: on_accept_call_def Let_def split: option.splits)

lemma refs_registered_update:
  assumes inv: "refs_registered st"
    and upd: "activeCalls st' = AList.update k c (activeCalls st)"
    and keys: "fst ` set (userSessions st') = fst ` set (userSessions st)"
    and ids: "set (call_ids c) \<subseteq> fst ` set (userSessions st)"
  shows "refs_registered st'"
  unfolding refs_registered_iff
proof (clarify)
  fix sid c' x
  assume mem: "(sid, c') \<in> set (activeCalls st')" and x: "x \<in> set (call_ids c')"
  from mem upd have "(sid, c') \<in> insert (k, c) (set (activeCalls st))"
    using set_update_subset [of k c "activeCalls st"] by auto
  then consider "c' = c" | "(sid, c') \<in> set (activeCalls st)"
    by auto
  then have "x \<in> fst ` set (userSessions st)"
  proof cases
    case 1
    then show ?thesis using x ids by auto
  next
    case 2
    then have "set (call_ids c') \<subseteq> fst ` set (userSessions st)"
      using inv unfolding refs_registered_iff by fast
    then show ?thesis using x by auto
  qed
  then show "x \<in> fst ` set (userSessions st')"
    by (simp only: keys)
qed

lemma initiate_preserves:
  assumes "refs_registered st" "registered st (in_caller m)" "registered st (in_to m)"
  shows "refs_registered (on_initiate_call sock now uuid m st)"
proof (cases "\<not> truthy (in_to m) \<or> \<not> truthy (in_caller m)")
  case True
  then show ?thesis
    using assms(1) by (simp add: on_initiate_call_def)
next
  case False
  show ?thesis
  proof (rule refs_registered_update [OF assms(1) _ on_initiate_call_keys])
    show "activeCalls (on_initiate_call sock now uuid m st) =
            AList.update (if truthy (in_sessionId m) then in_sessionId m else uuid)
             \<lparr>caller = in_caller m, callee = in_to m, participants = [in_caller m],
              callType = (case in_type m of None \<Rightarrow> ''video'' | Some t \<Rightarrow> t),
              offer = in_offer m, startedAt = now, status = Initiated,
              answer = None, answeredAt = None\<rparr> (activeCalls st)"
      using False by (simp add: on_initiate_call_activeCalls)
    show "set (call_ids \<lparr>caller = in_caller m, callee = in_to m, participants = [in_caller m],
              callType = (case in_type m of None \<Rightarrow> ''video'' | Some t \<Rightarrow> t),
              offer = in_offer m, startedAt = now, status = Initiated,
              answer = None, answeredAt = None\<rparr>) \<subseteq> fst ` set (userSessions st)"
      using assms(2,3) by (simp add: call_ids_def registered_keys)
  qed
qed

lemma accept_preserves:
  assumes "refs_registered st" "registered st (ac_callerId m)"
  shows "refs_registered (on_accept_call sock now m st)"
proof (cases "\<not> truthy (ac_to m) \<or> \<not> truthy (ac_sessionId m)")
  case True
  then show ?thesis
    using assms(1) by (simp add: on_accept_call_def)
next
  case valid: False
  show ?thesis
  proof (cases "map_of (activeCalls st) (ac_sessionId m)")
    case None
    have "activeCalls (on_accept_call sock now m st) = activeCalls st"
      using valid None by (simp add: on_accept_call_activeCalls)
    then show ?thesis
      using assms(1) on_accept_call_keys [of sock now m st]
      by (simp add: refs_registered_iff)
  next
    case (Some c)
    let ?c' = "c\<lparr>participants := participants c @ [ac_callerId m], status := InProgress,
                  answer := ac_answer m, answeredAt := Some now\<rparr>"
    have "(ac_sessionId m, c) \<in> set (activeCalls st)"
      using Some by (rule map_of_SomeD)
    then have "set (call_ids c) \<subseteq> fst ` set (userSessions st)"
      using assms(1) unfolding refs_registered_iff by fast
    then have ids: "set (call_ids ?c') \<subseteq> fst ` set (userSessions st)"
      using assms(2) by (auto simp: call_ids_def registered_keys)
    have upd: "activeCalls (on_accept_call sock now m st) =
                 AList.update (ac_sessionId m) ?c' (activeCalls st)"
      using valid Some by (simp add: on_accept_call_activeCalls)
    show ?thesis
      by (rule refs_registered_update [OF assms(1) upd on_accept_call_keys ids])
  qed
qed


lemma keys_delete: "fst ` set (AList.delete k al) = fst ` set al - {k}"
proof -
  have "fst ` set (AList.delete k al) = set (map fst (AList.delete k al))"
    by simp
  also have "\<dots> = set (removeAll k (map fst al))"
    by (simp only: delete_keys)
  also have "\<dots> = fst ` set al - {k}"
    by simp
  finally show ?thesis .
qed

lemma disconnect_preserves:
  assumes inv: "refs_registered st" and adm: "admissible (Disconnect sock clk) st"
  shows "refs_registered (on_disconnect sock clk st)"
proof (cases "session_of_socket sock st")
  case None
  then show ?thesis
    using inv by (simp add: on_disconnect_def refs_registered_iff)
next
  case (Some ud)
  obtain u d where ud: "ud = (u, d)" by (cases ud)
  define st1 where "st1 = (case currentCall d of
                          None \<Rightarrow> st
                        | Some c \<Rightarrow>
                            if truthy c then endCall clk c u ''Participant disconnected'' st
                            else st)"
  define st2 where "st2 = (case currentRoom d of
                          None \<Rightarrow> st1
                        | Some r \<Rightarrow> if truthy r then leaveRoom sock r u st1 else st1)"
  have calls': "activeCalls (on_disconnect sock clk st) = activeCalls st1"
    and keys': "fst ` set (userSessions (on_disconnect sock clk st)) =
                fst ` set (userSessions st) - {u}"
    using Some ud
    by (simp_all add: on_disconnect_def Let_def st1_def leaveRoom_frame keys_delete endCall_keys
        split: option.splits)
  have only: "\<forall>(sid, c) \<in> set (activeCalls st).
                u \<in> set (call_ids c) \<longrightarrow> currentCall d = Some sid \<and> truthy sid"
    using adm Some ud by (auto simp: list_all_iff)
  have "\<forall>(sid, c) \<in> set (activeCalls st1).
          (sid, c) \<in> set (activeCalls st) \<and> u \<notin> set (call_ids c)"
  proof (cases "\<exists>k. currentCall d = Some k \<and> truthy k \<and> map_of (activeCalls st) k \<noteq> None")
    case True
    then obtain k where k: "currentCall d = Some k" "truthy k"
      "map_of (activeCalls st) k \<noteq> None" by blast
    then have "activeCalls st1 = AList.delete k (activeCalls st)"
      by (simp add: st1_def endCall_activeCalls)
    then show ?thesis
      using only k(1) by (auto simp: AList.delete_eq)
  next
    case False
    then have same: "activeCalls st1 = activeCalls st"
      by (auto simp: st1_def endCall_activeCalls split: option.splits)
    have "\<forall>(sid, c) \<in> set (activeCalls st). u \<notin> set (call_ids c)"
    proof (clarify)
      fix sid c
      assume mem: "(sid, c) \<in> set (activeCalls st)" and ref: "u \<in> set (call_ids c)"
      then have "currentCall d = Some sid \<and> truthy sid" using only by fast
      moreover have "map_of (activeCalls st) sid \<noteq> None"
        using mem by (simp add: map_of_eq_None_iff image_iff) force
      ultimately show False using False by blast
    qed
    then show ?thesis using same by auto
  qed
  then show ?thesis
    using inv unfolding refs_registered_iff calls' keys' by fastforce
qed

lemma absent_delete: "map_of al sid = None \<Longrightarrow> map_of (AList.delete k al) sid = None"
  by (simp add: delete_conv)

lemma endCall_absent:
  "map_of (activeCalls st) sid = None \<Longrightarrow>
   map_of (activeCalls (endCall clk k uid reason st)) sid = None"
  by (simp add: endCall_activeCalls absent_delete)

lemma handle_absent:
  assumes "map_of (activeCalls st) sid = None" and "\<not> creates ev sid"
  shows "map_of (activeCalls (handle ev st)) sid = None"
proof (cases ev)
  case (RegisterUser sock now m)
  then show ?thesis using assms(1) by (simp add: on_register_user_frame)
next
  case (JoinRoom sock now m)
  then show ?thesis using assms(1) by (simp add: on_join_room_frame)
next
  case (OfferMsg sock m)
  then show ?thesis using assms(1) by (simp add: relay_frame)
next
  case (AnswerMsg sock m)
  then show ?thesis using assms(1) by (simp add: relay_frame)
next
  case (IceMsg sock m)
  then show ?thesis using assms(1) by (simp add: relay_frame)
next
  case (InitiateCall sock now uuid m)
  then show ?thesis
    using assms by (auto simp: on_initiate_call_activeCalls update_conv)
next
  case (AcceptCall sock now m)
  then show ?thesis
    using assms(1)
    by (auto simp: on_accept_call_activeCalls update_conv split: option.splits)
next
  case (RejectCall sock m)
  then show ?thesis
    using assms(1)
    by (simp add: on_reject_call_def Let_def absent_delete split: option.splits)
next
  case (EndCall sock clk m)
  then show ?thesis
    using assms(1) by (simp add: on_end_call_def Let_def endCall_absent)
next
  case (Disconnect sock clk)
  then show ?thesis
    using assms(1)
    by (simp add: on_disconnect_def Let_def leaveRoom_frame endCall_absent split: option.splits)
qed

lemma distinct_set_add: "distinct xs \<Longrightarrow> distinct (set_add xs x)"
  by (simp add: set_add_def)

lemma set_set_add: "set (set_add xs x) = insert x (set xs)"
  by (auto simp: set_add_def)

lemma distinct_foldl_collectSocket:
  "distinct acc \<Longrightarrow> distinct (foldl (collectSocket us) acc ps)"
  by (induction ps arbitrary: acc)
     (simp_all add: collectSocket_def distinct_set_add split: option.splits)

lemma collectSocket_keeps: "k \<in> set acc \<Longrightarrow> k \<in> set (collectSocket us acc p)"
  by (simp add: collectSocket_def set_set_add split: option.splits)

lemma foldl_collectSocket_keeps:
  "k \<in> set acc \<Longrightarrow> k \<in> set (foldl (collectSocket us) acc ps)"
  by (induction ps arbitrary: acc) (simp_all add: collectSocket_keeps)

lemma foldl_collectSocket_member:
  assumes "p \<in> set ps" and "map_of us p = Some s" and "truthy (socketId s)"
  shows "socketId s \<in> set (foldl (collectSocket us) acc ps)"
  using assms
proof (induction ps arbitrary: acc)
  case Nil
  then show ?case by simp
next
  case (Cons q qs)
  show ?case
  proof (cases "q = p")
    case True
    then have "socketId s \<in> set (collectSocket us acc q)"
      using Cons.prems by (simp add: collectSocket_def set_set_add)
    then show ?thesis
      by (simp add: foldl_collectSocket_keeps)
  next
    case False
    then show ?thesis
      using Cons by simp
  qed
qed

lemma socketsToNotify_distinct: "distinct (socketsToNotify us ps)"
  by (simp add: socketsToNotify_def distinct_foldl_collectSocket)

lemma socketsToNotify_member:
  "p \<in> set ps \<Longrightarrow> map_of us p = Some s \<Longrightarrow> truthy (socketId s) \<Longrightarrow>
   socketId s \<in> set (socketsToNotify us ps)"
  by (simp add: socketsToNotify_def foldl_collectSocket_member)

lemma one_event_per_socket:
  assumes "distinct ks" and "k \<in> set ks" and "is_call_ended ev"
  shows "map snd (filter (\<lambda>(t, e). t = ToSocket k \<and> is_call_ended e)
                    (map (\<lambda>x. (ToSocket x, ev)) ks)) = [ev]"
  using assms(1,2)
proof (induction ks)
  case Nil
  then show ?case by simp
next
  case (Cons x xs)
  show ?case
  proof (cases "x = k")
    case True
    then have "k \<notin> set xs" using Cons.prems by simp
    then have "filter (\<lambda>(t, e). t = ToSocket k \<and> is_call_ended e)
                 (map (\<lambda>x. (ToSocket x, ev)) xs) = []"
      by (auto simp: filter_empty_conv)
    then show ?thesis using True assms(3) by simp
  next
    case False
    then show ?thesis using Cons by simp
  qed
qed

lemma endCall_sent:
  assumes "truthy sid" and "map_of (activeCalls st) sid = Some c"
  shows "sent (endCall clk sid uid reason st) =
           sent st @ map (\<lambda>s. (ToSocket s, CallEnded sid reason uid (t_event clk - startedAt c)))
                      (socketsToNotify (userSessions st) (participants c))"
  using assms by (simp add: endCall_def saveCallDetails_rejected Let_def)

lemma endCall_removes:
  "truthy sid \<Longrightarrow> map_of (activeCalls (endCall clk sid uid reason st)) sid = None"
  by (simp add: endCall_activeCalls delete_conv)

lemma endCall_call_ended_for:
  assumes "truthy sid" and "map_of (activeCalls st) sid = Some c"
    and "p \<in> set (participants c)" and "map_of (userSessions st) p = Some s"
    and "truthy (socketId s)"
  shows "call_ended_for st (endCall clk sid uid reason st) (socketId s) =
           [CallEnded sid reason uid (t_event clk - startedAt c)]"
proof -
  have "socketId s \<in> set (socketsToNotify (userSessions st) (participants c))"
    using assms(3-5) by (rule socketsToNotify_member)
  then show ?thesis
    unfolding call_ended_for_def endCall_sent [OF assms(1,2)]
    by (simp add: one_event_per_socket socketsToNotify_distinct)
qed

lemma leaveRoom_sent:
  "\<exists>uid'. sent (leaveRoom sock room uid st) = sent st \<or>
           sent (leaveRoom sock room uid st) = sent st @ [(Broadcast sock room, UserLeft sock uid')]"
  by (auto simp: leaveRoom_def socket_leave_def Let_def split: option.splits)

lemma call_ended_for_leaveRoom:
  assumes "length (sent st) \<le> length (sent st1)"
  shows "call_ended_for st (leaveRoom sock room uid st1) k = call_ended_for st st1 k"
proof -
  obtain uid' where
    "sent (leaveRoom sock room uid st1) = sent st1 \<or>
     sent (leaveRoom sock room uid st1) = sent st1 @ [(Broadcast sock room, UserLeft sock uid')]"
    using leaveRoom_sent by blast
  then show ?thesis
    using assms by (auto simp: call_ended_for_def)
qed


lemma call_ended_for_cong:
  "sent st'' = sent st' \<Longrightarrow> call_ended_for st st'' k = call_ended_for st st' k"
  by (simp add: call_ended_for_def)

lemma endCall_sent_length: "length (sent st) \<le> length (sent (endCall clk sid uid reason st))"
  by (simp add: endCall_def saveCallDetails_rejected Let_def split: option.splits)


lemma rooms_wf_iff:
  "rooms_wf st \<longleftrightarrow> (\<forall>(r, rd) \<in> set (rooms st). distinct (map fst rd))"
  by (simp add: rooms_wf_def list_all_iff)

lemma rooms_wf_members: "rooms_wf st \<Longrightarrow> distinct (map fst (room_members st room))"
  by (auto simp: rooms_wf_iff room_members_def split: option.splits dest: map_of_SomeD)

lemma rooms_wf_update:
  assumes "rooms_wf st" and "rooms st' = AList.update r rd (rooms st)" and "distinct (map fst rd)"
  shows "rooms_wf st'"
  unfolding rooms_wf_iff
proof (clarify)
  fix r' rd'
  assume "(r', rd') \<in> set (rooms st')"
  then have "(r', rd') \<in> insert (r, rd) (set (rooms st))"
    using assms(2) set_update_subset [of r rd "rooms st"] by auto
  then show "distinct (map fst rd')"
    using assms(1,3) by (auto simp: rooms_wf_iff)
qed

lemma rooms_wf_delete:
  assumes "rooms_wf st" and "rooms st' = AList.delete r (rooms st)"
  shows "rooms_wf st'"
  using assms set_delete_subset [of r "rooms st"] by (auto simp: rooms_wf_iff)

lemma rooms_wf_leaveRoom:
  assumes "rooms_wf st"
  shows "rooms_wf (leaveRoom sock room uid st)"
proof (cases "truthy room")
  case False
  then show ?thesis using assms by (simp add: leaveRoom_def)
next
  case True
  show ?thesis
  proof (cases "map_of (rooms st) room")
    case None
    then have "rooms (leaveRoom sock room uid st) = rooms st"
      using True by (simp add: leaveRoom_def socket_leave_def Let_def)
    then show ?thesis using assms by (simp add: rooms_wf_def)
  next
    case (Some rd)
    then have d: "distinct (map fst rd)"
      using assms by (auto simp: rooms_wf_iff dest: map_of_SomeD)
    let ?rd' = "case map_of rd sock of None \<Rightarrow> rd | Some ud \<Rightarrow> AList.delete sock rd"
    have d': "distinct (map fst ?rd')"
      using d by (simp add: distinct_delete split: option.splits)
    have eq: "rooms (leaveRoom sock room uid st) =
            (if ?rd' = [] then AList.delete room (rooms st)
             else AList.update room ?rd' (rooms st))"
      using True Some by (simp add: leaveRoom_def socket_leave_def Let_def split: option.splits)
    show ?thesis
    proof (cases "?rd' = []")
      case True
      with eq have "rooms (leaveRoom sock room uid st) = AList.delete room (rooms st)"
        by simp
      then show ?thesis
        by (rule rooms_wf_delete [OF assms])
    next
      case False
      with eq have "rooms (leaveRoom sock room uid st) = AList.update room ?rd' (rooms st)"
        by simp
      then show ?thesis
        using d' by (rule rooms_wf_update [OF assms])
    qed
  qed
qed

lemma rooms_wf_leaveCurrentRoom: "rooms_wf st \<Longrightarrow> rooms_wf (leaveCurrentRoom sock uid st)"
  by (simp add: leaveCurrentRoom_def rooms_wf_leaveRoom split: option.splits)



lemma on_join_room_rooms:
  assumes "truthy (jn_room m)" and "truthy (jn_userId m)"
  shows "rooms (on_join_room sock now m st) =
           AList.update (jn_room m)
             (AList.update sock \<lparr>m_userId = jn_userId m, m_userData = jn_userData m, m_joinedAt = now\<rparr>
                (room_members (leaveCurrentRoom sock (jn_userId m) st) (jn_room m)))
             (rooms (leaveCurrentRoom sock (jn_userId m) st))"
  using assms
  by (simp add: on_join_room_def Let_def socket_join_def room_members_def split: option.splits)








lemma endCall_rooms: "rooms (endCall clk sid uid reason st) = rooms st"
  by (simp add: endCall_def saveCallDetails_rejected Let_def split: option.splits)

lemma rooms_wf_init: "rooms_wf init"
  by (simp add: rooms_wf_def init_def)

lemma rooms_wf_on_join_room:
  assumes "rooms_wf st"
  shows "rooms_wf (on_join_room sock now m st)"
proof (cases "truthy (jn_room m) \<and> truthy (jn_userId m)")
  case False
  then show ?thesis
    using assms by (auto simp: on_join_room_def rooms_wf_def)
next
  case True
  let ?st1 = "leaveCurrentRoom sock (jn_userId m) st"
  have wf1: "rooms_wf ?st1"
    using assms by (rule rooms_wf_leaveCurrentRoom)
  then have "distinct (map fst (room_members ?st1 (jn_room m)))"
    by (rule rooms_wf_members)
  then have d: "distinct (map fst (AList.update sock
        \<lparr>m_userId = jn_userId m, m_userData = jn_userData m, m_joinedAt = now\<rparr>
        (room_members ?st1 (jn_room m))))"
    by (rule distinct_update)
  show ?thesis
    using True by (intro rooms_wf_update [OF wf1 on_join_room_rooms d]) simp_all
qed

lemma rooms_wf_on_disconnect:
  assumes "rooms_wf st"
  shows "rooms_wf (on_disconnect sock clk st)"
proof (cases "session_of_socket sock st")
  case None
  then show ?thesis
    using assms by (simp add: on_disconnect_def rooms_wf_def)
next
  case (Some ud)
  obtain u d where ud: "ud = (u, d)" by (cases ud)
  let ?st1 = "case currentCall d of
                None \<Rightarrow> st
              | Some c \<Rightarrow> if truthy c then endCall clk c u ''Participant disconnected'' st else st"
  let ?st2 = "case currentRoom d of
                None \<Rightarrow> ?st1
              | Some r \<Rightarrow> if truthy r then leaveRoom sock r u ?st1 else ?st1"
  have "rooms ?st1 = rooms st"
    by (simp add: endCall_rooms split: option.splits)
  then have "rooms_wf ?st1"
    using assms by (simp add: rooms_wf_def)
  then have "rooms_wf ?st2"
    by (simp add: rooms_wf_leaveRoom split: option.splits)
  moreover have "rooms (on_disconnect sock clk st) = rooms ?st2"
    using Some ud by (simp add: on_disconnect_def Let_def)
  ultimately show ?thesis
    by (simp add: rooms_wf_def)
qed

lemma rooms_wf_handle: "rooms_wf st \<Longrightarrow> rooms_wf (handle ev st)"
proof (cases ev)
  case (JoinRoom sock now m)
  assume "rooms_wf st"
  then show ?thesis using JoinRoom by (simp add: rooms_wf_on_join_room)
next
  case (Disconnect sock clk)
  assume "rooms_wf st"
  then show ?thesis using Disconnect by (simp add: rooms_wf_on_disconnect)
qed (simp_all add: rooms_wf_def on_register_user_def on_offer_def on_answer_def
      on_ice_candidate_def on_initiate_call_def on_accept_call_def on_reject_call_def
      on_end_call_def endCall_rooms Let_def split: option.splits)

lemma offer_discarded_when_peer_exists: "peerRef cl \<noteq> None \<Longrightarrow> offer_received d cl = cl"
  by (simp add: offer_received_def)

lemma peers_only_grow: "take (length (peers cl)) (peers (client_handle e cl)) = peers cl"
  by (cases e) (simp_all add: offer_received_def offer_resumed_def Let_def split: option.splits)

lemma still_awaiting: "d2 \<in> set (remove1 d1 (xs @ [d1, d2]))"
  by (cases "d1 = d2") (auto simp: remove1_append)

subsection \<open>Durations are measured from \<^verbatim>\<open>startedAt\<close>\<close>

text \<open>
  C10. When \<^verbatim>\<open>endCall\<close> ends a call of the ledger, every \<^verbatim>\<open>call-ended\<close> event it sends
  carries the clock reading taken for the event minus the call's \<^verbatim>\<open>startedAt\<close>, and the
  object that \<^verbatim>\<open>saveCallDetails\<close> builds carries the reading taken for it minus
  \<^verbatim>\<open>startedAt\<close>; neither mentions \<^verbatim>\<open>answeredAt\<close> or the status, so a call ended before it
  was accepted reports the time since its initiation. But no CallNote with that duration
  is ever stored, as the claim has it: the object has none of the paths of the
  \<^verbatim>\<open>CallNote\<close> schema and lacks its four required ones, so \<^verbatim>\<open>save()\<close> rejects and the store
  is left as it was.
\<close>

theorem endCall_duration_from_startedAt:
  assumes "truthy sid" and "map_of (activeCalls st) sid = Some c"
  shows "sent (endCall clk sid uid reason st) =
           sent st @ map (\<lambda>s. (ToSocket s, CallEnded sid reason uid (t_event clk - startedAt c)))
                      (socketsToNotify (userSessions st) (participants c))
       \<and> n_duration (callDetails clk sid c reason uid) = t_duration clk - startedAt c
       \<and> n_startedAt (callDetails clk sid c reason uid) = startedAt c
       \<and> n_endedAt (callDetails clk sid c reason uid) = t_endedAt clk
       \<and> \<not> validates (new_CallNote (t_createdAt clk) (callDetails clk sid c reason uid))
       \<and> callNotes (endCall clk sid uid reason st) = callNotes st"
  using assms
  by (simp add: endCall_def saveCallDetails_rejected callDetails_def new_CallNote_def
      validates_def Let_def)

theorem endCall_duration_witness:
  "sent (endCall ex_clock ''s1'' ''alice'' ''Call ended'' ex_calling) =
     sent ex_calling @ [(ToSocket ''sa'', CallEnded ''s1'' ''Call ended'' ''alice'' 90)]
   \<and> n_duration (callDetails ex_clock ''s1'' ex_call ''Call ended'' ''alice'') = 92
   \<and> callNotes (endCall ex_clock ''s1'' ''alice'' ''Call ended'' ex_calling) = []"
proof -
  have h1: "truthy ''s1''"
    by (simp add: truthy_def)
  have h2: "map_of (activeCalls ex_calling) ''s1'' = Some ex_call"
    by code_simp
  have h3: "socketsToNotify (userSessions ex_calling) (participants ex_call) = [''sa'']"
    by code_simp
  have h4: "callNotes ex_calling = []"
    by code_simp
  show ?thesis
    using endCall_duration_from_startedAt [OF h1 h2, of ex_clock "''alice''" "''Call ended''"]
      h3 h4
    by (simp add: ex_call_def ex_clock_def)
qed

subsection \<open>Identities referenced by the ledger\<close>

text \<open>
  C1, as amended. If every identity referenced by \<^verbatim>\<open>activeCalls\<close> is a key of
  \<^verbatim>\<open>userSessions\<close> before a handler runs, it is so after the handler, provided that an
  \<^verbatim>\<open>initiate-call\<close> names a registered caller and a registered callee, an \<^verbatim>\<open>accept-call\<close>
  names a registered \<^verbatim>\<open>callerId\<close>, and a \<^verbatim>\<open>disconnect\<close> removes a session that no call
  but its own \<^verbatim>\<open>currentCall\<close> references. \<^verbatim>\<open>register-user\<close>, \<^verbatim>\<open>join-room\<close>, \<^verbatim>\<open>offer\<close>,
  \<^verbatim>\<open>answer\<close>, \<^verbatim>\<open>ice-candidate\<close>, \<^verbatim>\<open>reject-call\<close> and \<^verbatim>\<open>end-call\<close> keep it always.
\<close>

theorem refs_registered_preserved:
  assumes "refs_registered st" and "admissible ev st"
  shows "refs_registered (handle ev st)"
proof (cases ev)
  case (RegisterUser sock now m)
  have "refs_registered (on_register_user sock now m st)"
    by (rule refs_registered_mono [OF assms(1)]) (simp_all add: on_register_user_frame)
  then show ?thesis
    using RegisterUser by simp
next
  case (JoinRoom sock now m)
  have "refs_registered (on_join_room sock now m st)"
    by (rule refs_registered_mono [OF assms(1)]) (simp_all add: on_join_room_frame)
  then show ?thesis
    using JoinRoom by simp
next
  case (OfferMsg sock m)
  then show ?thesis
    using assms(1) by (simp add: refs_registered_iff relay_frame)
next
  case (AnswerMsg sock m)
  then show ?thesis
    using assms(1) by (simp add: refs_registered_iff relay_frame)
next
  case (IceMsg sock m)
  then show ?thesis
    using assms(1) by (simp add: refs_registered_iff relay_frame)
next
  case (InitiateCall sock now uuid m)
  then show ?thesis
    using assms by (simp add: initiate_preserves)
next
  case (AcceptCall sock now m)
  then show ?thesis
    using assms by (simp add: accept_preserves)
next
  case (RejectCall sock m)
  have "refs_registered (on_reject_call sock m st)"
    by (rule refs_registered_mono [OF assms(1)]) (simp_all add: on_reject_call_frame)
  then show ?thesis
    using RejectCall by simp
next
  case (EndCall sock clk m)
  have "refs_registered (on_end_call sock clk m st)"
    by (rule refs_registered_mono [OF assms(1)]) (simp_all add: on_end_call_frame)
  then show ?thesis
    using EndCall by simp
next
  case (Disconnect sock clk)
  then show ?thesis
    using assms by (simp add: disconnect_preserves)
qed

theorem refs_registered_preserved_witness:
  "refs_registered ex_calling
   \<and> admissible (Disconnect ''sa'' ex_clock) ex_calling
   \<and> refs_registered (handle (Disconnect ''sa'' ex_clock) ex_calling)
   \<and> activeCalls (handle (Disconnect ''sa'' ex_clock) ex_calling) = []"
proof -
  have h1: "refs_registered ex_calling"
    by code_simp
  have h2: "admissible (Disconnect ''sa'' ex_clock) ex_calling"
    by code_simp
  have h3: "activeCalls (handle (Disconnect ''sa'' ex_clock) ex_calling) = []"
    by code_simp
  show ?thesis
    using refs_registered_preserved [OF h1 h2] h1 h2 h3 by simp
qed

text \<open>
  The claim as stated fails. From the empty state, \<^verbatim>\<open>initiate-call\<close> stores a call whose
  caller and callee were never registered (the callee is looked up only after the call is
  stored). And when the callee of a call that is not yet accepted disconnects, its session
  holds no \<^verbatim>\<open>currentCall\<close>, so the call stays in the ledger and names an identity that is
  gone.
\<close>

theorem ledger_references_unregistered:
  "refs_registered init
   \<and> \<not> refs_registered (handle (InitiateCall ''sa'' 10 ''uuid'' ex_initiate) init)
   \<and> refs_registered ex_calling
   \<and> \<not> refs_registered (handle (Disconnect ''sb'' ex_clock) ex_calling)
   \<and> map_of (activeCalls (handle (Disconnect ''sb'' ex_clock) ex_calling)) ''s1'' = Some ex_call
   \<and> map_of (userSessions (handle (Disconnect ''sb'' ex_clock) ex_calling)) ''bob'' = None"
  by code_simp

subsection \<open>What can re-create a ledger entry\<close>

text \<open>
  C9, as amended. A session id that is not in \<^verbatim>\<open>activeCalls\<close> (one that was ended or
  rejected and removed, say) stays out of it through every sequence of handled events
  that holds no \<^verbatim>\<open>initiate-call\<close> for that very id: \<^verbatim>\<open>offer\<close>, \<^verbatim>\<open>answer\<close>,
  \<^verbatim>\<open>ice-candidate\<close>, \<^verbatim>\<open>accept-call\<close>, \<^verbatim>\<open>reject-call\<close>, \<^verbatim>\<open>end-call\<close>, \<^verbatim>\<open>register-user\<close>,
  \<^verbatim>\<open>join-room\<close>, \<^verbatim>\<open>disconnect\<close> and an \<^verbatim>\<open>initiate-call\<close> for another id never create an
  entry for it.
\<close>

theorem absent_call_stays_absent:
  assumes "map_of (activeCalls st) sid = None" and "list_all (\<lambda>ev. \<not> creates ev sid) evs"
  shows "map_of (activeCalls (run evs st)) sid = None"
  using assms
proof (induction evs arbitrary: st)
  case Nil
  then show ?case by simp
next
  case (Cons ev evs)
  from Cons.prems have "map_of (activeCalls (handle ev st)) sid = None"
    by (simp add: handle_absent)
  with Cons.prems Cons.IH show ?case by simp
qed

theorem absent_call_stays_absent_witness:
  "map_of (activeCalls (handle (EndCall ''sa'' ex_clock ex_end) ex_calling)) ''s1'' = None
   \<and> list_all (\<lambda>ev. \<not> creates ev ''s1'') ex_replay
   \<and> map_of (activeCalls (run ex_replay (handle (EndCall ''sa'' ex_clock ex_end) ex_calling))) ''s1''
       = None"
proof -
  have h1: "map_of (activeCalls (handle (EndCall ''sa'' ex_clock ex_end) ex_calling)) ''s1'' = None"
    by code_simp
  have h2: "list_all (\<lambda>ev. \<not> creates ev ''s1'') ex_replay"
    by code_simp
  show ?thesis
    using absent_call_stays_absent [OF h1 h2] h1 h2 by simp
qed

text \<open>
  The claim as stated fails for \<^verbatim>\<open>initiate-call\<close>: the server keeps no record of the
  session ids it has ended, so an \<^verbatim>\<open>initiate-call\<close> that carries the id of an ended call
  stores a call under that id again.
\<close>

theorem ended_call_revived:
  "map_of (activeCalls ex_calling) ''s1'' = Some ex_call
   \<and> map_of (activeCalls (handle (EndCall ''sa'' ex_clock ex_end) ex_calling)) ''s1'' = None
   \<and> map_of (activeCalls (run [EndCall ''sa'' ex_clock ex_end,
                                 InitiateCall ''sa'' 200 ''uuid'' ex_initiate] ex_calling)) ''s1''
       = Some (ex_call\<lparr>startedAt := 200\<rparr>)"
  by code_simp

subsection \<open>Ending a call\<close>

text \<open>
  C2, as amended. When a call of the ledger is ended, by \<^verbatim>\<open>end-call\<close> or by the
  \<^verbatim>\<open>disconnect\<close> of a socket whose session holds it as \<^verbatim>\<open>currentCall\<close>, every participant
  whose session holds a socket id is sent exactly one \<^verbatim>\<open>call-ended\<close> event on that socket,
  carrying the session id, the reason, the identity that ended the call and the duration;
  the call is removed from \<^verbatim>\<open>activeCalls\<close>; and for a disconnect the reason is
  \<^verbatim>\<open>Participant disconnected\<close>, with a capital P.
\<close>

theorem ended_call_notifies_once:
  assumes e: "ends ev st = Some (sid, uid, reason, clk)"
    and c: "map_of (activeCalls st) sid = Some c"
    and p: "p \<in> set (participants c)" "map_of (userSessions st) p = Some s"
      "truthy (socketId s)"
  shows "call_ended_for st (handle ev st) (socketId s) =
           [CallEnded sid reason uid (t_event clk - startedAt c)]
       \<and> map_of (activeCalls (handle ev st)) sid = None
       \<and> (case ev of Disconnect sock k \<Rightarrow> reason = ''Participant disconnected'' | _ \<Rightarrow> True)"
proof (cases ev)
  case (EndCall sock k m)
  have nil: "\<not> truthy []"
    by (simp add: truthy_def)
  from EndCall e have sid: "truthy sid"
    and h: "handle ev st = endCall clk sid uid reason st"
    by (auto simp: on_end_call_def Let_def nil split: if_splits option.splits)
  show ?thesis
    unfolding h using EndCall endCall_call_ended_for [OF sid c p] endCall_removes [OF sid]
    by simp
next
  case (Disconnect sock k)
  with e obtain d where d: "session_of_socket sock st = Some (uid, d)"
    "currentCall d = Some sid" "truthy sid" "reason = ''Participant disconnected''" "k = clk"
    by (auto split: option.splits if_splits)
  let ?st1 = "endCall clk sid uid reason st"
  let ?st2 = "case currentRoom d of
                None \<Rightarrow> ?st1
              | Some r \<Rightarrow> if truthy r then leaveRoom sock r uid ?st1 else ?st1"
  have s': "sent (handle ev st) = sent ?st2"
    and a': "activeCalls (handle ev st) = activeCalls ?st1"
    using Disconnect d
    by (simp_all add: on_disconnect_def Let_def leaveRoom_frame split: option.splits)
  have "call_ended_for st ?st2 (socketId s) = call_ended_for st ?st1 (socketId s)"
    by (simp add: call_ended_for_leaveRoom endCall_sent_length split: option.splits)
  then have "call_ended_for st (handle ev st) (socketId s) =
               [CallEnded sid reason uid (t_event clk - startedAt c)]"
    using call_ended_for_cong [OF s'] endCall_call_ended_for [OF d(3) c p] by simp
  then show ?thesis
    using Disconnect d(4) a' endCall_removes [OF d(3)] by simp
qed (use e in simp_all)

theorem ended_call_notifies_once_witness:
  "ends (Disconnect ''sa'' ex_clock) ex_in_progress =
     Some (''s1'', ''alice'', ''Participant disconnected'', ex_clock)
   \<and> call_ended_for ex_in_progress (handle (Disconnect ''sa'' ex_clock) ex_in_progress) ''sb'' =
       [CallEnded ''s1'' ''Participant disconnected'' ''alice'' 90]
   \<and> map_of (activeCalls (handle (Disconnect ''sa'' ex_clock) ex_in_progress)) ''s1'' = None"
proof -
  let ?c = "ex_call\<lparr>participants := [''alice'', ''bob''], status := InProgress,
                    answeredAt := Some 20\<rparr>"
  let ?s = "\<lparr>socketId = ''sb'', userId = ''bob'', name = None, role = None, connectedAt = 0,
             currentRoom = None, currentCall = Some ''s1''\<rparr>"
  have h1: "ends (Disconnect ''sa'' ex_clock) ex_in_progress =
              Some (''s1'', ''alice'', ''Participant disconnected'', ex_clock)"
    by code_simp
  have h2: "map_of (activeCalls ex_in_progress) ''s1'' = Some ?c"
    by code_simp
  have h3: "''bob'' \<in> set (participants ?c)"
    by simp
  have h4: "map_of (userSessions ex_in_progress) ''bob'' = Some ?s"
    by code_simp
  have h5: "truthy (socketId ?s)"
    by (simp add: truthy_def)
  show ?thesis
    using ended_call_notifies_once [OF h1 h2 h3 h4 h5] h1
    by (simp add: ex_call_def ex_clock_def)
qed

text \<open>
  The claim as stated gives the reason as \<^verbatim>\<open>participant disconnected\<close>; the string the
  \<^verbatim>\<open>disconnect\<close> handler passes to \<^verbatim>\<open>endCall\<close>, and that the peers receive, starts with a
  capital letter.
\<close>

theorem disconnect_reason_is_capitalised:
  "call_ended_for ex_in_progress (handle (Disconnect ''sa'' ex_clock) ex_in_progress) ''sb'' =
     [CallEnded ''s1'' ''Participant disconnected'' ''alice'' 90]
   \<and> call_ended_for ex_in_progress (handle (Disconnect ''sa'' ex_clock) ex_in_progress) ''sb'' \<noteq>
     [CallEnded ''s1'' ''participant disconnected'' ''alice'' 90]"
  by code_simp

subsection \<open>Rejecting a call\<close>

text \<open>
  C3. The claim asks for a CallNote of status \<^verbatim>\<open>rejected\<close> when a call is rejected. The
  \<^verbatim>\<open>reject-call\<close> handler sends \<^verbatim>\<open>call-rejected\<close> and removes the call, but it never calls
  \<^verbatim>\<open>saveCallDetails\<close>: whatever the message and the state, the list of saved CallNotes is
  left as it was. (\<^verbatim>\<open>saveCallDetails\<close> itself knows the status \<^verbatim>\<open>rejected\<close>, and \<^verbatim>\<open>endCall\<close>
  hands every call it ends to \<^verbatim>\<open>saveCallDetails\<close>.)
\<close>

theorem reject_call_writes_no_record:
  "callNotes (on_reject_call sock m st) = callNotes st"
  by (simp add: on_reject_call_def Let_def split: option.splits)

theorem reject_call_writes_no_record_witness:
  "map_of (activeCalls ex_calling) ''s1'' = Some ex_call
   \<and> sent (on_reject_call ''sb'' ex_reject ex_calling) =
       sent ex_calling @ [(ToSocket ''sa'', CallRejected ''s1'' ''Call rejected'')]
   \<and> map_of (activeCalls (on_reject_call ''sb'' ex_reject ex_calling)) ''s1'' = None
   \<and> callNotes (on_reject_call ''sb'' ex_reject ex_calling) = []"
proof -
  have h1: "map_of (activeCalls ex_calling) ''s1'' = Some ex_call"
    by code_simp
  have h2: "sent (on_reject_call ''sb'' ex_reject ex_calling) =
              sent ex_calling @ [(ToSocket ''sa'', CallRejected ''s1'' ''Call rejected'')]"
    by code_simp
  have h3: "map_of (activeCalls (on_reject_call ''sb'' ex_reject ex_calling)) ''s1'' = None"
    by code_simp
  have h4: "callNotes ex_calling = []"
    by code_simp
  show ?thesis
    using reject_call_writes_no_record [of "''sb''" ex_reject ex_calling] h1 h2 h3 h4 by simp
qed

subsection \<open>Registering again\<close>

text \<open>
  C4. \<^verbatim>\<open>register-user\<close> replaces the session of the identity, and is never refused as a
  duplicate. The socket id it stores is the registering socket's only when \<^verbatim>\<open>userData\<close>
  has no \<^verbatim>\<open>socketId\<close> key: the object literal spreads \<^verbatim>\<open>userData\<close> after \<^verbatim>\<open>socketId: socket.id\<close>,
  so a \<^verbatim>\<open>socketId\<close> inside \<^verbatim>\<open>userData\<close> wins. (\<^verbatim>\<open>join-room\<close> writes \<^verbatim>\<open>socketId: socket.id\<close>
  after the spread.) The witness registers Bob from socket \<open>sb2\<close> with the stale id \<open>sb\<close> in
  \<^verbatim>\<open>userData\<close>: the next \<^verbatim>\<open>ice-candidate\<close> for Bob goes to \<open>sb\<close>.
\<close>

theorem register_user_stores_payload_socketId:
  assumes "truthy (rg_userId m)"
  shows "map_of (userSessions (on_register_user sock now m st)) (rg_userId m) =
           Some \<lparr>socketId = (case ud_socketId (rg_userData m) of None \<Rightarrow> sock | Some x \<Rightarrow> x),
                 userId = rg_userId m, name = ud_name (rg_userData m),
                 role = ud_role (rg_userData m), connectedAt = now,
                 currentRoom = None, currentCall = None\<rparr>"
  using assms by (simp add: on_register_user_def Let_def update_conv)

theorem register_user_stores_payload_socketId_witness:
  "map_of (userSessions ex_in_progress) ''bob'' =
     Some \<lparr>socketId = ''sb'', userId = ''bob'', name = None, role = None, connectedAt = 0,
           currentRoom = None, currentCall = Some ''s1''\<rparr>
   \<and> map_of (userSessions (on_register_user ''sb2'' 30 ex_reregister ex_in_progress)) ''bob'' =
     Some \<lparr>socketId = ''sb'', userId = ''bob'', name = Some ''Bob'', role = Some ''user'',
           connectedAt = 30, currentRoom = None, currentCall = None\<rparr>
   \<and> sent (on_ice_candidate ''sa'' ex_ice (on_register_user ''sb2'' 30 ex_reregister ex_in_progress)) =
     sent (on_register_user ''sb2'' 30 ex_reregister ex_in_progress) @
       [(ToSocket ''sb'', IceCandidate ''sa'' ''cand'' ''s1'')]"
proof -
  have h1: "truthy (rg_userId ex_reregister)"
    by (simp add: ex_reregister_def truthy_def)
  have h2: "map_of (userSessions ex_in_progress) ''bob'' =
     Some \<lparr>socketId = ''sb'', userId = ''bob'', name = None, role = None, connectedAt = 0,
           currentRoom = None, currentCall = Some ''s1''\<rparr>"
    by code_simp
  have h3: "sent (on_ice_candidate ''sa'' ex_ice (on_register_user ''sb2'' 30 ex_reregister ex_in_progress)) =
     sent (on_register_user ''sb2'' 30 ex_reregister ex_in_progress) @
       [(ToSocket ''sb'', IceCandidate ''sa'' ''cand'' ''s1'')]"
    by code_simp
  show ?thesis
    using register_user_stores_payload_socketId [OF h1, of "''sb2''" 30 ex_in_progress] h2 h3
    by (simp add: ex_reregister_def)
qed

subsection \<open>The relay\<close>

text \<open>
  C5, as amended. For \<^verbatim>\<open>offer\<close>, \<^verbatim>\<open>answer\<close> and \<^verbatim>\<open>ice-candidate\<close>: when the target is not a
  key of \<^verbatim>\<open>userSessions\<close> the sender is sent an \<^verbatim>\<open>error\<close> that names the target, and nothing
  else changes; when it is, exactly one event goes to the target's socket and nothing
  else changes. An \<^verbatim>\<open>offer\<close> or \<^verbatim>\<open>answer\<close> is forwarded as the message object it came as,
  with no field added by the server; an \<^verbatim>\<open>ice-candidate\<close> is forwarded as its candidate and
  session id together with \<^verbatim>\<open>from\<close>, the sender's socket id.
\<close>

theorem relay_reports_or_forwards:
  "on_offer sock mo st =
     (case map_of (userSessions st) (of_to mo) of
        None \<Rightarrow> st\<lparr>sent := sent st @
                  [(ToSender sock, Error ''Failed to send offer'' (not_found (of_to mo)))]\<rparr>
      | Some t \<Rightarrow> st\<lparr>sent := sent st @ [(ToSocket (socketId t), Offer mo)]\<rparr>)
   \<and> on_answer sock ma st =
     (case map_of (userSessions st) (an_to ma) of
        None \<Rightarrow> st\<lparr>sent := sent st @
                  [(ToSender sock, Error ''Failed to send answer'' (not_found (an_to ma)))]\<rparr>
      | Some t \<Rightarrow> st\<lparr>sent := sent st @ [(ToSocket (socketId t), Answer ma)]\<rparr>)
   \<and> on_ice_candidate sock mi st =
     (case map_of (userSessions st) (ic_to mi) of
        None \<Rightarrow> st\<lparr>sent := sent st @
                  [(ToSender sock, Error ''Failed to send ICE candidate'' (not_found (ic_to mi)))]\<rparr>
      | Some t \<Rightarrow> st\<lparr>sent := sent st @
                  [(ToSocket (socketId t), IceCandidate sock (ic_candidate mi) (ic_sessionId mi))]\<rparr>)"
  by (simp add: on_offer_def on_answer_def on_ice_candidate_def emit_def split: option.splits)

theorem relay_reports_or_forwards_witness:
  "sent (on_answer ''sb'' ex_answer ex_in_progress) =
     sent ex_in_progress @ [(ToSocket ''sa'', Answer ex_answer)]
   \<and> sent (on_ice_candidate ''sa'' ex_ice ex_in_progress) =
     sent ex_in_progress @ [(ToSocket ''sb'', IceCandidate ''sa'' ''cand'' ''s1'')]
   \<and> sent (on_ice_candidate ''sa'' ex_ice init) =
     [(ToSender ''sa'', Error ''Failed to send ICE candidate'' ''Target user bob not found'')]"
proof -
  have h1: "map_of (userSessions ex_in_progress) ''alice'' =
     Some \<lparr>socketId = ''sa'', userId = ''alice'', name = None, role = None, connectedAt = 0,
           currentRoom = None, currentCall = Some ''s1''\<rparr>"
    by code_simp
  have h2: "map_of (userSessions ex_in_progress) ''bob'' =
     Some \<lparr>socketId = ''sb'', userId = ''bob'', name = None, role = None, connectedAt = 0,
           currentRoom = None, currentCall = Some ''s1''\<rparr>"
    by code_simp
  have h3: "map_of (userSessions init) ''bob'' = None" "sent init = []"
    by (simp_all add: init_def)
  have a: "sent (on_answer ''sb'' ex_answer ex_in_progress) =
             sent ex_in_progress @ [(ToSocket ''sa'', Answer ex_answer)]"
    using relay_reports_or_forwards [of "''sb''" _ ex_in_progress ex_answer] h1
    by (simp add: ex_answer_def)
  have b: "sent (on_ice_candidate ''sa'' ex_ice ex_in_progress) =
             sent ex_in_progress @ [(ToSocket ''sb'', IceCandidate ''sa'' ''cand'' ''s1'')]"
    using relay_reports_or_forwards [of "''sa''" _ ex_in_progress _ ex_ice] h2
    by (simp add: ex_ice_def)
  have c: "sent (on_ice_candidate ''sa'' ex_ice init) =
     [(ToSender ''sa'', Error ''Failed to send ICE candidate'' ''Target user bob not found'')]"
    using relay_reports_or_forwards [of "''sa''" _ init _ ex_ice] h3
    by (simp add: ex_ice_def not_found_def)
  show ?thesis
    using a b c by simp
qed

text \<open>
  The claim as stated has every forwarded message tagged with the sender's identity. The
  forwarded \<^verbatim>\<open>answer\<close> is the same event whichever socket sends it, and the tag of a
  forwarded \<^verbatim>\<open>ice-candidate\<close> is the sender's socket id \<open>sb\<close>, not its identity \<open>bob\<close>.
\<close>

theorem forwarded_answer_names_no_sender:
  "sent (on_answer ''sb'' ex_answer ex_in_progress) =
     sent ex_in_progress @ [(ToSocket ''sa'', Answer ex_answer)]
   \<and> sent (on_answer ''sx'' ex_answer ex_in_progress) =
     sent (on_answer ''sb'' ex_answer ex_in_progress)
   \<and> sent (on_ice_candidate ''sb'' (ex_ice\<lparr>ic_to := ''alice''\<rparr>) ex_in_progress) =
     sent ex_in_progress @ [(ToSocket ''sa'', IceCandidate ''sb'' ''cand'' ''s1'')]"
  by code_simp

subsection \<open>Accepting twice\<close>




subsection \<open>Joining a room\<close>




subsection \<open>Two offers on one client\<close>

text \<open>
  C8. The handler discards an offer when \<^verbatim>\<open>peerRef.current\<close> is set
  (\<open>offer_discarded_when_peer_exists\<close>), and a peer, once built, is never changed
  (\<open>peers_only_grow\<close>). But \<^verbatim>\<open>peerRef.current\<close> is set only after \<^verbatim>\<open>await getUserMedia\<close>:
  a second offer that arrives while the media of the first is still pending finds no
  peer and passes the guard. On a client without a peer, two offers followed by the two
  grants of media leave two live answerer peers, the first of them no longer reachable
  from \<^verbatim>\<open>peerRef.current\<close>, whatever the offers are (the same call id included).
\<close>

theorem pending_offer_passes_the_guard:
  assumes "peerRef cl = None"
  shows "live_peers (client_run [OfferArrives d1, OfferArrives d2,
                                 MediaSettled d1 (Some s1), MediaSettled d2 (Some s2)] cl) =
           live_peers cl @ [answerer d1 s1, answerer d2 s2]
       \<and> peerRef (client_run [OfferArrives d1, OfferArrives d2,
                              MediaSettled d1 (Some s1), MediaSettled d2 (Some s2)] cl) =
           Some (Suc (length (peers cl)))"
proof -
  let ?c2 = "offer_received d2 (offer_received d1 cl)"
  have aw: "awaiting ?c2 = awaiting cl @ [d1, d2]" and p2: "peers ?c2 = peers cl"
    using assms by (simp_all add: offer_received_def)
  let ?c3 = "offer_resumed d1 (Some s1) ?c2"
  have c3: "peers ?c3 = peers cl @ [answerer d1 s1]"
    "awaiting ?c3 = remove1 d1 (awaiting cl @ [d1, d2])"
    using aw p2 by (simp_all add: offer_resumed_def Let_def answerer_def)
  have "d2 \<in> set (awaiting ?c3)"
    unfolding c3(2) by (rule still_awaiting)
  then have c4: "peers (offer_resumed d2 (Some s2) ?c3) = peers cl @ [answerer d1 s1, answerer d2 s2]"
    "peerRef (offer_resumed d2 (Some s2) ?c3) = Some (Suc (length (peers cl)))"
    using c3(1) by (simp_all add: offer_resumed_def Let_def answerer_def)
  then show ?thesis
    by (simp add: live_peers_def answerer_def)
qed

theorem pending_offer_passes_the_guard_witness:
  "peerRef client_init = None
   \<and> live_peers (client_run [OfferArrives ex_offer, OfferArrives ex_offer,
                             MediaSettled ex_offer (Some ''cam''),
                             MediaSettled ex_offer (Some ''cam'')] client_init) =
       [answerer ex_offer ''cam'', answerer ex_offer ''cam'']
   \<and> peerRef (client_run [OfferArrives ex_offer, OfferArrives ex_offer,
                          MediaSettled ex_offer (Some ''cam''),
                          MediaSettled ex_offer (Some ''cam'')] client_init) = Some 1"
proof -
  have h1: "peerRef client_init = None"
    by (simp add: client_init_def)
  have h2: "live_peers client_init = []" "peers client_init = []"
    by (simp_all add: client_init_def live_peers_def)
  show ?thesis
    using pending_offer_passes_the_guard [OF h1, of ex_offer ex_offer "''cam''" "''cam''"] h1 h2
    by simp
qed

end
